theory Spec2Isabelle
  imports Main
begin

section \<open>Values, errors and the external collaborators\<close>

text \<open>
  Session attributes are Go values of type \<^verbatim>\<open>any\<close>.  The embedding keeps the shapes the
  session code itself distinguishes: scalars (the nil interface, booleans, integers,
  strings) and \<^verbatim>\<open>[]any\<close> sequences of scalars (the flash bookkeeping lists).
\<close>

datatype atom = ANil | ABool bool | AInt int | AStr string

datatype val = VAtom atom | VSeq "atom list"

abbreviation VNil :: val where
  "VNil \<equiv> VAtom ANil"

abbreviation VBool :: "bool \<Rightarrow> val" where
  "VBool b \<equiv> VAtom (ABool b)"

abbreviation VInt :: "int \<Rightarrow> val" where
  "VInt i \<equiv> VAtom (AInt i)"

abbreviation VStr :: "string \<Rightarrow> val" where
  "VStr s \<equiv> VAtom (AStr s)"

text \<open>A Go map \<^verbatim>\<open>map[string]any\<close>: a key may be present with the value nil.\<close>

type_synonym attrs = "string \<rightharpoonup> val"

text \<open>A Go \<^verbatim>\<open>error\<close> value, and the ways a call can fail to return at all.\<close>

datatype error = Error string

datatype fault =
    Panic    \<comment> \<open>failed type assertion, nil dereference, unlock of an unlocked mutex\<close>
  | Blocked  \<comment> \<open>\<^verbatim>\<open>Mutex.Lock\<close> on a mutex that is held; the caller does not proceed\<close>

subsection \<open>\<^verbatim>\<open>github.com/spf13/cast\<close>\<close>

text \<open>
  Modelled from the spec: the package \<^verbatim>\<open>github.com/spf13/cast\<close> is a dependency whose
  source is not part of the repository.  The flash bookkeeping sequences hold key names;
  \<^verbatim>\<open>cast.ToString\<close> gives the name an entry stands for.  \<open>dec_nat\<close> prints a natural
  number in decimal.
\<close>

function dec_nat :: "nat \<Rightarrow> string" where
  "dec_nat n =
     (if n < 10 then [char_of (48 + n)]
      else dec_nat (n div 10) @ [char_of (48 + n mod 10)])"
  by pat_completeness auto

termination
  by (relation "measure (\<lambda>n. n)") auto

declare dec_nat.simps [simp del]

text \<open>
  Modelled from the spec: \<^verbatim>\<open>cast.ToString\<close>, of the same missing package, after its
  documentation, on the scalars.  A string is itself, integers print in decimal,
  booleans as \<^verbatim>\<open>true\<close>/\<^verbatim>\<open>false\<close>, nil as the empty string.
\<close>

fun cast_ToString :: "atom \<Rightarrow> string" where
  "cast_ToString (AStr s) = s"
| "cast_ToString (AInt i) = (if i < 0 then CHR ''-'' # dec_nat (nat (- i)) else dec_nat (nat i))"
| "cast_ToString (ABool b) = (if b then ''true'' else ''false'')"
| "cast_ToString ANil = []"

text \<open>
  Modelled from the spec: \<^verbatim>\<open>cast.ToStringSlice\<close>, of the same missing package, on a
  \<^verbatim>\<open>[]any\<close>: \<^verbatim>\<open>ToString\<close> of every element, in order.
\<close>

definition cast_ToStringSlice :: "atom list \<Rightarrow> string list" where
  "cast_ToStringSlice xs = map cast_ToString xs"

subsection \<open>\<^verbatim>\<open>github.com/libtnb/utils/maps\<close>\<close>

text \<open>
  Modelled from the spec: the package \<^verbatim>\<open>github.com/libtnb/utils/maps\<close> is a dependency
  whose source is not part of the repository.  \<^verbatim>\<open>maps.Get(mp, key, defaults...)\<close> is the
  get with optional default: the stored value, else the first default, else nil.
\<close>

definition maps_Get :: "attrs \<Rightarrow> string \<Rightarrow> val list \<Rightarrow> val" where
  "maps_Get mp key defaults =
     (case mp key of
        Some v \<Rightarrow> v
      | None \<Rightarrow> (case defaults of d # _ \<Rightarrow> d | [] \<Rightarrow> VNil))"

text \<open>
  Modelled from the spec: \<^verbatim>\<open>maps.Forget(mp, keys...)\<close>, of the same missing package,
  removes the keys from the map: \<^verbatim>\<open>delete(mp, key)\<close> for every key in turn.
\<close>

fun maps_Forget :: "attrs \<Rightarrow> string list \<Rightarrow> attrs" where
  "maps_Forget mp [] = mp"
| "maps_Forget mp (key # keys) = maps_Forget (mp(key := None)) keys"

text \<open>
  Modelled from the spec: \<^verbatim>\<open>maps.Pull(mp, key, def...)\<close>, of the same missing package,
  is get-and-remove: the stored value, deleted from the map, else the first default,
  else nil.
\<close>

definition maps_Pull :: "attrs \<Rightarrow> string \<Rightarrow> val list \<Rightarrow> val \<times> attrs" where
  "maps_Pull mp key def =
     (case mp key of
        Some v \<Rightarrow> (v, mp(key := None))
      | None \<Rightarrow> (case def of d # _ \<Rightarrow> (d, mp) | [] \<Rightarrow> (VNil, mp)))"

subsection \<open>Storage driver and codec\<close>

text \<open>
  \<^verbatim>\<open>driver.Driver\<close> is an interface, and every statement below holds for any driver.  A
  driver is its method table over the state \<open>'b\<close> of the backend it fronts: \<open>Read\<close>
  answers from that state, \<open>Write\<close> and \<open>Destroy\<close> return the error (if any) and the
  state they leave behind.
\<close>

record 'b Driver =
  Read :: "string \<Rightarrow> 'b \<Rightarrow> error + string"
  Write :: "string \<Rightarrow> string \<Rightarrow> 'b \<Rightarrow> error option \<times> 'b"
  Destroy :: "string \<Rightarrow> 'b \<Rightarrow> error option \<times> 'b"

text \<open>
  \<^verbatim>\<open>securecookie.Codec\<close>, likewise a parameter: \<^verbatim>\<open>Encode(name, value)\<close> and
  \<^verbatim>\<open>Decode(name, value, &dst)\<close>, each a blob or an attribute map, or an error.  A
  decoded nil map and a decoded empty map are the same map here; the code treats them
  alike.
\<close>

record Codec =
  Encode :: "string \<Rightarrow> attrs \<Rightarrow> error + string"
  Decode :: "string \<Rightarrow> string \<Rightarrow> error + attrs"

text \<open>The in-memory driver of the repository's tests.\<close>

record memoryDriver =
  data :: "string \<rightharpoonup> string"
  failWrite :: bool

definition memoryDriver_Read :: "string \<Rightarrow> memoryDriver \<Rightarrow> error + string" where
  "memoryDriver_Read i d =
     (case data d i of
        None \<Rightarrow> Inl (Error (''session ['' @ i @ ''] not found''))
      | Some v \<Rightarrow> Inr v)"

definition memoryDriver_Write :: "string \<Rightarrow> string \<Rightarrow> memoryDriver \<Rightarrow> error option \<times> memoryDriver" where
  "memoryDriver_Write i blob d =
     (if failWrite d then (Some (Error ''write failed''), d)
      else (None, d\<lparr>data := (data d)(i \<mapsto> blob)\<rparr>))"

definition memoryDriver_Destroy :: "string \<Rightarrow> memoryDriver \<Rightarrow> error option \<times> memoryDriver" where
  "memoryDriver_Destroy i d = (None, d\<lparr>data := (data d)(i := None)\<rparr>)"

definition memDriver :: "memoryDriver Driver" where
  "memDriver = \<lparr>Read = memoryDriver_Read, Write = memoryDriver_Write, Destroy = memoryDriver_Destroy\<rparr>"

subsection \<open>Session identifiers\<close>

text \<open>
  Modelled from the spec: the package \<^verbatim>\<open>github.com/jaevor/go-nanoid\<close> is a dependency
  whose source is not part of the repository.  \<^verbatim>\<open>nanoid.MustCustomASCII(alphabet, 32)\<close>
  yields a generator of identifiers of 32 characters drawn from the alphabet, chosen by
  the process's random source.  The random source is an explicit stream of numbers; a
  call consumes 32 of them.
\<close>

type_synonym entropy = "nat \<Rightarrow> nat"

definition alphabet :: string where
  "alphabet = ''0123456789ABCDEFGHIJKLMNOPQRSTUVWXYZabcdefghijklmnopqrstuvwxyz''"

definition generateSessionID :: "entropy \<Rightarrow> string \<times> entropy" where
  "generateSessionID e =
     (map (\<lambda>i. alphabet ! (e i mod length alphabet)) [0..<32], \<lambda>i. e (i + 32))"

definition isValidID :: "string \<Rightarrow> bool" where
  "isValidID i = (length i = 32)"

section \<open>Session\<close>

text \<open>
  The struct of \<^verbatim>\<open>session.go\<close>; the field \<^verbatim>\<open>id\<close> is \<open>sess_id\<close> here, \<open>id\<close> being
  the identity function of HOL.  \<open>manager\<close> is a pointer: \<open>None\<close> is nil, \<open>Some a\<close>
  the address of the owning manager.  \<open>forgets\<close> is the Go \<^verbatim>\<open>map[string]bool\<close>; its
  key set is what the code ranges over.
\<close>

type_synonym addr = nat

record 'b Session =
  sess_id :: string
  name :: string
  attributes :: attrs
  codec :: "Codec option"
  driver :: "'b Driver option"
  manager :: "addr option"
  started :: bool
  dirty :: bool
  flushed :: bool
  puts :: attrs
  forgets :: "string \<rightharpoonup> bool"

definition GetID :: "'b Session \<Rightarrow> string" where
  "GetID s = sess_id s"

definition GetName :: "'b Session \<Rightarrow> string" where
  "GetName s = name s"

definition Get :: "'b Session \<Rightarrow> string \<Rightarrow> val list \<Rightarrow> val" where
  "Get s key defaultValue = maps_Get (attributes s) key defaultValue"

definition Put :: "string \<Rightarrow> val \<Rightarrow> 'b Session \<Rightarrow> 'b Session" where
  "Put key v s =
     s\<lparr>attributes := (attributes s)(key \<mapsto> v),
       puts := (puts s)(key \<mapsto> v),
       forgets := (forgets s)(key := None),
       dirty := True\<rparr>"

fun Forget_loop :: "string list \<Rightarrow> 'b Session \<Rightarrow> 'b Session" where
  "Forget_loop [] s = s"
| "Forget_loop (key # keys) s =
     Forget_loop keys (s\<lparr>forgets := (forgets s)(key \<mapsto> True), puts := (puts s)(key := None)\<rparr>)"

definition Forget :: "string list \<Rightarrow> 'b Session \<Rightarrow> 'b Session" where
  "Forget keys s =
     (Forget_loop keys (s\<lparr>attributes := maps_Forget (attributes s) keys\<rparr>))\<lparr>dirty := True\<rparr>"

definition Pull :: "string \<Rightarrow> val list \<Rightarrow> 'b Session \<Rightarrow> val \<times> 'b Session" where
  "Pull key def s =
     (let s1 = s\<lparr>forgets := (forgets s)(key \<mapsto> True), puts := (puts s)(key := None), dirty := True\<rparr>;
          r = maps_Pull (attributes s1) key def
      in (fst r, s1\<lparr>attributes := snd r\<rparr>))"

definition Flush :: "'b Session \<Rightarrow> 'b Session" where
  "Flush s =
     s\<lparr>attributes := Map.empty, puts := Map.empty, forgets := Map.empty,
       flushed := True, dirty := True\<rparr>"

definition SetID :: "string \<Rightarrow> 'b Session \<Rightarrow> entropy \<Rightarrow> 'b Session \<times> entropy" where
  "SetID i s e =
     (if isValidID i then (s\<lparr>sess_id := i\<rparr>, e)
      else (let g = generateSessionID e in (s\<lparr>sess_id := fst g\<rparr>, snd g)))"

subsection \<open>Flash bookkeeping\<close>

text \<open>The type assertion \<^verbatim>\<open>.([]any)\<close>: anything but a sequence panics.\<close>

definition as_seq :: "val \<Rightarrow> fault + atom list" where
  "as_seq v = (case v of VSeq xs \<Rightarrow> Inr xs | _ \<Rightarrow> Inl Panic)"

text \<open>\<^verbatim>\<open>s.Get(key, []any{}).([]any)\<close>, the idiom every flash operation starts with.\<close>

definition flash_seq :: "'b Session \<Rightarrow> string \<Rightarrow> fault + atom list" where
  "flash_seq s key = as_seq (Get s key [VSeq []])"

fun removeFromOld_loop :: "string list \<Rightarrow> atom list \<Rightarrow> atom list" where
  "removeFromOld_loop [] old = old"
| "removeFromOld_loop (key # keys) old =
     removeFromOld_loop keys (filter (\<lambda>i. cast_ToString i \<noteq> key) old)"

definition removeFromOldFlashData :: "string list \<Rightarrow> 'b Session \<Rightarrow> fault + 'b Session" where
  "removeFromOldFlashData keys s =
     (case flash_seq s ''_flash.old'' of
        Inl f \<Rightarrow> Inl f
      | Inr old \<Rightarrow> Inr (Put ''_flash.old'' (VSeq (removeFromOld_loop keys old)) s))"

definition Flash :: "string \<Rightarrow> val \<Rightarrow> 'b Session \<Rightarrow> fault + 'b Session" where
  "Flash key v s =
     (let s1 = Put key v s in
      case flash_seq s1 ''_flash.new'' of
        Inl f \<Rightarrow> Inl f
      | Inr old \<Rightarrow> removeFromOldFlashData [key] (Put ''_flash.new'' (VSeq (old @ [AStr key])) s1))"

definition Now :: "string \<Rightarrow> val \<Rightarrow> 'b Session \<Rightarrow> fault + 'b Session" where
  "Now key v s =
     (let s1 = Put key v s in
      case flash_seq s1 ''_flash.old'' of
        Inl f \<Rightarrow> Inl f
      | Inr old \<Rightarrow> Inr (Put ''_flash.old'' (VSeq (old @ [AStr key])) s1))"

definition ageFlashData :: "'b Session \<Rightarrow> fault + 'b Session" where
  "ageFlashData s =
     (case flash_seq s ''_flash.old'' of
        Inl f \<Rightarrow> Inl f
      | Inr oldv \<Rightarrow>
          (let old = cast_ToStringSlice oldv in
           case flash_seq s ''_flash.new'' of
             Inl f \<Rightarrow> Inl f
           | Inr newFlash \<Rightarrow>
               if length old = 0 \<and> length newFlash = 0 then Inr s
               else
                 (let s1 = (if length old > 0 then Forget old s else s) in
                  Inr (Put ''_flash.new'' (VSeq []) (Put ''_flash.old'' (VSeq newFlash) s1)))))"

section \<open>Manager\<close>

text \<open>
  The struct of the manager.  \<open>sessionPool\<close> is the \<^verbatim>\<open>sync.Pool\<close> of idle sessions,
  \<open>sessionLocks\<close> the \<^verbatim>\<open>sync.Map\<close> from session ID to mutex; a mutex is \<open>True\<close> while
  held.
\<close>

record 'b Manager =
  Codec :: "Codec option"
  Lifetime :: int
  GcInterval :: int
  drivers :: "string \<rightharpoonup> 'b Driver"
  sessionPool :: "'b Session list"
  sessionLocks :: "string \<rightharpoonup> bool"

text \<open>The pool's \<^verbatim>\<open>New\<close> function: a zero session with the three maps allocated.\<close>

definition pool_New :: "'b Session" where
  "pool_New =
     \<lparr>sess_id = [], name = [], attributes = Map.empty, codec = None, driver = None,
      manager = None, started = False, dirty = False, flushed = False,
      puts = Map.empty, forgets = Map.empty\<rparr>"

definition reset :: "'b Session \<Rightarrow> 'b Session" where
  "reset s =
     s\<lparr>sess_id := [], name := [], attributes := Map.empty, puts := Map.empty,
       forgets := Map.empty, codec := None, driver := None, manager := None,
       started := False, dirty := False, flushed := False\<rparr>"

text \<open>
  \<^verbatim>\<open>sync.Pool.Get\<close> hands out any pooled item, or a new one; \<open>pick\<close> is that choice
  (an index into the pool, anything else meaning \<^verbatim>\<open>New\<close>).
\<close>

definition AcquireSession :: "nat \<Rightarrow> 'b Manager \<Rightarrow> 'b Session \<times> 'b Manager" where
  "AcquireSession pick m =
     (if pick < length (sessionPool m)
      then (sessionPool m ! pick,
            m\<lparr>sessionPool := take pick (sessionPool m) @ drop (Suc pick) (sessionPool m)\<rparr>)
      else (pool_New, m))"

definition ReleaseSession :: "'b Session \<Rightarrow> 'b Manager \<Rightarrow> 'b Manager" where
  "ReleaseSession session m = m\<lparr>sessionPool := reset session # sessionPool m\<rparr>"

definition Manager_driver :: "'b Manager \<Rightarrow> string list \<Rightarrow> error + 'b Driver" where
  "Manager_driver m nm =
     (let driverName = (case nm of n # _ \<Rightarrow> n | [] \<Rightarrow> ''default'') in
      if driverName = [] then Inl (Error ''driver is not set'')
      else
        (case drivers m driverName of
           None \<Rightarrow> Inl (Error (''driver ['' @ driverName @ ''] not supported''))
         | Some handler \<Rightarrow> Inr handler))"

text \<open>\<open>BuildSession\<close> on the manager at address \<open>a\<close>.\<close>

definition BuildSession ::
  "addr \<Rightarrow> 'b Manager \<Rightarrow> string \<Rightarrow> string list \<Rightarrow> nat \<Rightarrow> entropy \<Rightarrow>
     error + ('b Session \<times> 'b Manager \<times> entropy)" where
  "BuildSession a m nm drv pick e =
     (case Manager_driver m drv of
        Inl err \<Rightarrow> Inl err
      | Inr handler \<Rightarrow>
          (let (session, m') = AcquireSession pick m;
               g = generateSessionID e
           in Inr (session\<lparr>sess_id := fst g, name := nm, codec := Codec m,
                           driver := Some handler, manager := Some a\<rparr>, m', snd g)))"

text \<open>
  \<open>LockSession\<close>: \<^verbatim>\<open>LoadOrStore(id, &sync.Mutex{})\<close>, then \<^verbatim>\<open>Lock\<close>.
  \<open>UnlockSession\<close>: \<^verbatim>\<open>Load(id)\<close> and, if present, \<^verbatim>\<open>Unlock\<close>.
\<close>

definition LockSession :: "string \<Rightarrow> 'b Manager \<Rightarrow> fault + 'b Manager" where
  "LockSession i m =
     (let locks = (case sessionLocks m i of
                     None \<Rightarrow> (sessionLocks m)(i \<mapsto> False)
                   | Some mu \<Rightarrow> sessionLocks m)
      in if locks i = Some True then Inl Blocked
         else Inr (m\<lparr>sessionLocks := locks(i \<mapsto> True)\<rparr>))"

definition UnlockSession :: "string \<Rightarrow> 'b Manager \<Rightarrow> fault + 'b Manager" where
  "UnlockSession i m =
     (case sessionLocks m i of
        None \<Rightarrow> Inr m
      | Some held \<Rightarrow>
          if held then Inr (m\<lparr>sessionLocks := (sessionLocks m)(i \<mapsto> False)\<rparr>)
          else Inl Panic)"

section \<open>Loading and saving\<close>

text \<open>
  What a session's I/O acts on: the state of the backend behind its driver, the manager
  its \<open>manager\<close> pointer refers to, and the log of backend and lock calls made so far.
  Other requests act on the same world between the calls of this one.
\<close>

datatype event =
    EvLock string
  | EvUnlock string
  | EvRead string
  | EvWrite string string
  | EvDestroy string

record 'b world =
  store :: 'b
  mgr :: "'b Manager"
  trace :: "event list"

definition log_event :: "event \<Rightarrow> 'b world \<Rightarrow> 'b world" where
  "log_event ev w = w\<lparr>trace := trace w @ [ev]\<rparr>"

text \<open>
  \<open>readFromHandler\<close>: \<open>None\<close> is the nil map returned when the read or the decode
  fails.  A session whose driver or codec is nil panics on the call.
\<close>

definition readFromHandler :: "'b Session \<Rightarrow> 'b world \<Rightarrow> fault + (attrs option \<times> 'b world)" where
  "readFromHandler s w =
     (case driver s of
        None \<Rightarrow> Inl Panic
      | Some d \<Rightarrow>
          (let w1 = log_event (EvRead (GetID s)) w in
           case Read d (GetID s) (store w) of
             Inl err \<Rightarrow> Inr (None, w1)
           | Inr v \<Rightarrow>
               (case codec s of
                  None \<Rightarrow> Inl Panic
                | Some c \<Rightarrow>
                    (case Decode c (GetName s) v of
                       Inl err \<Rightarrow> Inr (None, w1)
                     | Inr m \<Rightarrow> Inr (Some m, w1)))))"

text \<open>\<open>loadSession\<close>: \<^verbatim>\<open>maps.Copy(s.attributes, data)\<close> when something was read.\<close>

definition loadSession :: "'b Session \<Rightarrow> 'b world \<Rightarrow> fault + ('b Session \<times> 'b world)" where
  "loadSession s w =
     (case readFromHandler s w of
        Inl f \<Rightarrow> Inl f
      | Inr (None, w1) \<Rightarrow> Inr (s, w1)
      | Inr (Some m, w1) \<Rightarrow> Inr (s\<lparr>attributes := attributes s ++ m\<rparr>, w1))"

definition Start :: "'b Session \<Rightarrow> 'b world \<Rightarrow> fault + (bool \<times> 'b Session \<times> 'b world)" where
  "Start s w =
     (case loadSession s w of
        Inl f \<Rightarrow> Inl f
      | Inr (s1, w1) \<Rightarrow> (let s2 = s1\<lparr>started := True\<rparr> in Inr (started s2, s2, w1)))"

text \<open>
  The two range loops of \<open>Save\<close> over Go maps: delete every key of \<open>forgets\<close> from
  \<open>latest\<close>, then store every entry of \<open>puts\<close> into it.
\<close>

definition merge_latest :: "attrs \<Rightarrow> (string \<rightharpoonup> bool) \<Rightarrow> attrs \<Rightarrow> attrs" where
  "merge_latest latest fg pt = (latest |` (- dom fg)) ++ pt"

text \<open>The part of \<open>Save\<close> that runs with the lock held (if there is a manager).\<close>

definition Save_locked ::
  "'b Session \<Rightarrow> 'b world \<Rightarrow> fault + (error option \<times> 'b Session \<times> 'b world)" where
  "Save_locked s w =
     (case (if flushed s then Inr (attributes s, w)
            else (case readFromHandler s w of
                    Inl f \<Rightarrow> Inl f
                  | Inr (r, w1) \<Rightarrow>
                      (let latest = (case r of None \<Rightarrow> Map.empty | Some m \<Rightarrow> m)
                       in Inr (merge_latest latest (forgets s) (puts s), w1)))) of
        Inl f \<Rightarrow> Inl f
      | Inr (final, w1) \<Rightarrow>
          (case codec s of
             None \<Rightarrow> Inl Panic
           | Some c \<Rightarrow>
               (case Encode c (GetName s) final of
                  Inl err \<Rightarrow> Inr (Some err, s, w1)
                | Inr blob \<Rightarrow>
                    (case driver s of
                       None \<Rightarrow> Inl Panic
                     | Some d \<Rightarrow>
                         (let r = Write d (GetID s) blob (store w1);
                              w2 = log_event (EvWrite (GetID s) blob) (w1\<lparr>store := snd r\<rparr>)
                          in case fst r of
                               Some err \<Rightarrow> Inr (Some err, s, w2)
                             | None \<Rightarrow> Inr (None, s\<lparr>dirty := False, started := False\<rparr>, w2))))))"

definition lock_world :: "string \<Rightarrow> 'b world \<Rightarrow> fault + 'b world" where
  "lock_world i w =
     (case LockSession i (mgr w) of
        Inl f \<Rightarrow> Inl f
      | Inr m \<Rightarrow> Inr (log_event (EvLock i) (w\<lparr>mgr := m\<rparr>)))"

definition unlock_world :: "string \<Rightarrow> 'b world \<Rightarrow> fault + 'b world" where
  "unlock_world i w =
     (case UnlockSession i (mgr w) of
        Inl f \<Rightarrow> Inl f
      | Inr m \<Rightarrow> Inr (log_event (EvUnlock i) (w\<lparr>mgr := m\<rparr>)))"

definition Save :: "'b Session \<Rightarrow> 'b world \<Rightarrow> fault + (error option \<times> 'b Session \<times> 'b world)" where
  "Save s0 w =
     (case ageFlashData s0 of
        Inl f \<Rightarrow> Inl f
      | Inr s \<Rightarrow>
          if \<not> dirty s then Inr (None, s, w)
          else if manager s = None then Save_locked s w
          else
            (case lock_world (GetID s) w of
               Inl f \<Rightarrow> Inl f
             | Inr w1 \<Rightarrow>
                 (case Save_locked s w1 of
                    Inl f \<Rightarrow> Inl f
                  | Inr (err, s', w2) \<Rightarrow>
                      (case unlock_world (GetID s) w2 of
                         Inl f \<Rightarrow> Inl f
                       | Inr w3 \<Rightarrow> Inr (err, s', w3)))))"

text \<open>\<open>migrate\<close>, behind \<open>Regenerate\<close> and \<open>Invalidate\<close>.\<close>

definition migrate ::
  "bool list \<Rightarrow> 'b Session \<Rightarrow> 'b world \<Rightarrow> entropy \<Rightarrow>
     fault + (error option \<times> 'b Session \<times> 'b world \<times> entropy)" where
  "migrate destroy s w e =
     (let shouldDestroy = (case destroy of b # _ \<Rightarrow> b | [] \<Rightarrow> False);
          g = generateSessionID e;
          s' = s\<lparr>sess_id := fst g, dirty := True, flushed := True\<rparr>
      in if shouldDestroy then
           (case driver s of
              None \<Rightarrow> Inl Panic
            | Some d \<Rightarrow>
                (let r = Destroy d (GetID s) (store w);
                     w1 = log_event (EvDestroy (GetID s)) (w\<lparr>store := snd r\<rparr>)
                 in case fst r of
                      Some err \<Rightarrow> Inr (Some err, s, w1, e)
                    | None \<Rightarrow> Inr (None, s', w1, snd g)))
         else Inr (None, s', w, snd g))"

definition Regenerate ::
  "bool list \<Rightarrow> 'b Session \<Rightarrow> 'b world \<Rightarrow> entropy \<Rightarrow>
     fault + (error option \<times> 'b Session \<times> 'b world \<times> entropy)" where
  "Regenerate destroy s w e = migrate destroy s w e"

definition Invalidate ::
  "'b Session \<Rightarrow> 'b world \<Rightarrow> entropy \<Rightarrow>
     fault + (error option \<times> 'b Session \<times> 'b world \<times> entropy)" where
  "Invalidate s w e = migrate [True] (Flush s) w e"

section \<open>Sequences of calls\<close>

text \<open>
  The mutators a handler may call on a session, as data, so that statements can range
  over every sequence of calls.  A sequence stops at the first panic.
\<close>

datatype session_op =
    OpPut string val
  | OpForget "string list"
  | OpPull string "val list"
  | OpFlush
  | OpFlash string val

fun apply_op :: "session_op \<Rightarrow> 'b Session \<Rightarrow> fault + 'b Session" where
  "apply_op (OpPut key v) s = Inr (Put key v s)"
| "apply_op (OpForget keys) s = Inr (Forget keys s)"
| "apply_op (OpPull key def) s = Inr (snd (Pull key def s))"
| "apply_op OpFlush s = Inr (Flush s)"
| "apply_op (OpFlash key v) s = Flash key v s"

fun run_ops :: "session_op list \<Rightarrow> 'b Session \<Rightarrow> fault + 'b Session" where
  "run_ops [] s = Inr s"
| "run_ops (x # xs) s = (case apply_op x s of Inl f \<Rightarrow> Inl f | Inr s' \<Rightarrow> run_ops xs s')"

text \<open>
  Calls on the lock registry, listed in the order in which they return (a waiter's
  \<open>LockSession\<close> returns after the holder's \<open>UnlockSession\<close>).
\<close>

datatype lock_call = CallLock string | CallUnlock string

fun run_locks :: "lock_call list \<Rightarrow> 'b Manager \<Rightarrow> fault + 'b Manager" where
  "run_locks [] m = Inr m"
| "run_locks (CallLock i # cs) m =
     (case LockSession i m of Inl f \<Rightarrow> Inl f | Inr m' \<Rightarrow> run_locks cs m')"
| "run_locks (CallUnlock i # cs) m =
     (case UnlockSession i m of Inl f \<Rightarrow> Inl f | Inr m' \<Rightarrow> run_locks cs m')"

section \<open>Notions used in the statements\<close>

text \<open>No key is both in \<open>puts\<close> and in \<open>forgets\<close>.\<close>

definition deltas_disjoint :: "'b Session \<Rightarrow> bool" where
  "deltas_disjoint s = (dom (puts s) \<inter> dom (forgets s) = {})"

text \<open>Both flash bookkeeping sequences are empty (absent, or present and empty).\<close>

definition no_flash :: "'b Session \<Rightarrow> bool" where
  "no_flash s = (flash_seq s ''_flash.old'' = Inr [] \<and> flash_seq s ''_flash.new'' = Inr [])"

text \<open>
  The backend's current persisted state for the session's ID, read as loading reads it:
  the empty map when the read or the decode fails.
\<close>

definition persisted_state :: "'b Session \<Rightarrow> 'b \<Rightarrow> attrs" where
  "persisted_state s b =
     (case driver s of
        None \<Rightarrow> Map.empty
      | Some d \<Rightarrow>
          (case Read d (sess_id s) b of
             Inl err \<Rightarrow> Map.empty
           | Inr v \<Rightarrow>
               (case codec s of
                  None \<Rightarrow> Map.empty
                | Some c \<Rightarrow>
                    (case Decode c (name s) v of Inl err \<Rightarrow> Map.empty | Inr m \<Rightarrow> m))))"

text \<open>
  The merge in the specification's words, key by key: a key that was put has its
  buffered value; otherwise a forgotten key is absent; any other key keeps what the
  re-read gave.
\<close>

definition spec_merge :: "attrs \<Rightarrow> (string \<rightharpoonup> bool) \<Rightarrow> attrs \<Rightarrow> attrs" where
  "spec_merge latest fg pt =
     (\<lambda>k. case pt k of
             Some v \<Rightarrow> Some v
           | None \<Rightarrow> (if k \<in> dom fg then None else latest k))"

text \<open>The final attribute set of a save: overwrite when flushed, merge otherwise.\<close>

definition final_set :: "'b Session \<Rightarrow> 'b \<Rightarrow> attrs" where
  "final_set s b =
     (if flushed s then attributes s
      else spec_merge (persisted_state s b) (forgets s) (puts s))"

text \<open>The events a save that reaches the backend adds to the log.\<close>

definition save_events :: "'b Session \<Rightarrow> event list \<Rightarrow> event list" where
  "save_events s evs =
     (if manager s = None then evs
      else [EvLock (sess_id s)] @ evs @ [EvUnlock (sess_id s)])"

text \<open>
  The world a save leaves behind: the backend state \<open>b\<close>, the session's mutex present
  and released in the manager's registry, and \<open>evs\<close> logged between lock and unlock.
\<close>

definition saved_world :: "'b Session \<Rightarrow> 'b world \<Rightarrow> 'b \<Rightarrow> event list \<Rightarrow> 'b world" where
  "saved_world s w b evs =
     w\<lparr>store := b,
       mgr := (if manager s = None then mgr w
               else (mgr w)\<lparr>sessionLocks := (sessionLocks (mgr w))(sess_id s \<mapsto> False)\<rparr>),
       trace := trace w @ save_events s evs\<rparr>"

text \<open>The session's mutex is free: \<open>LockSession\<close> would not block.\<close>

definition lock_free :: "'b Session \<Rightarrow> 'b world \<Rightarrow> bool" where
  "lock_free s w = (manager s = None \<or> sessionLocks (mgr w) (sess_id s) \<noteq> Some True)"

text \<open>
  Every idle session in the pool is in the state \<^verbatim>\<open>New\<close> creates and \<open>reset\<close>
  restores; \<open>ReleaseSession\<close> is the only way into the pool.
\<close>

definition pool_ok :: "'b Manager \<Rightarrow> bool" where
  "pool_ok m = (\<forall>s \<in> set (sessionPool m). s = pool_New)"

section \<open>Concrete sessions, codecs and worlds\<close>

text \<open>The session ID and manager options of the repository's tests.\<close>

definition test_id :: string where
  "test_id = ''12345678901234567890123456789012''"

text \<open>
  A small codec to run sessions against.  A blob is the name followed by those of a few
  probed keys that are present; a map holding the key \<^verbatim>\<open>unencodable\<close> is rejected.
  Two blobs decode, anything else is invalid.
\<close>

definition probe_keys :: "string list" where
  "probe_keys = [''seed'', ''k0'', ''k1'', ''x'', ''_flash.old'', ''_flash.new'']"

definition testCodec_Encode :: "string \<Rightarrow> attrs \<Rightarrow> error + string" where
  "testCodec_Encode nm m =
     (if m ''unencodable'' \<noteq> None then Inl (Error ''securecookie: error - caused by: encode'')
      else Inr (nm @ '':'' @ concat (map (\<lambda>k. if m k = None then [] else k @ '';'') probe_keys)))"

definition testCodec_Decode :: "string \<Rightarrow> string \<Rightarrow> error + attrs" where
  "testCodec_Decode nm blob =
     (if blob = nm @ '':seed;k1;'' then Inr [''seed'' \<mapsto> VInt 1, ''k1'' \<mapsto> VInt 1]
      else if blob = nm @ '':x;_flash.new;''
        then Inr [''x'' \<mapsto> VInt 1, ''_flash.new'' \<mapsto> VSeq [AStr ''x'']]
      else Inl (Error ''securecookie: the value is not valid''))"

definition testCodec :: Codec where
  "testCodec = \<lparr>Encode = testCodec_Encode, Decode = testCodec_Decode\<rparr>"

definition test_manager :: "memoryDriver Manager" where
  "test_manager =
     \<lparr>Codec = Some testCodec, Lifetime = 10, GcInterval = 10,
      drivers = [''mock'' \<mapsto> memDriver], sessionPool = [], sessionLocks = Map.empty\<rparr>"

definition test_world :: "(string \<rightharpoonup> string) \<Rightarrow> bool \<Rightarrow> memoryDriver world" where
  "test_world records fw =
     \<lparr>store = \<lparr>data = records, failWrite = fw\<rparr>, mgr = test_manager, trace = []\<rparr>"

text \<open>
  Backends.  In \<open>merge_world\<close> the record holds \<^verbatim>\<open>seed\<close> and a key \<^verbatim>\<open>k1\<close> that another
  request saved in the meantime; \<open>failing_world\<close> is the same with a driver whose writes
  fail.  In \<open>flash_world\<close> the record holds a value \<^verbatim>\<open>x\<close> flashed by the previous
  request.  \<open>empty_world\<close> has no record, \<open>tampered_world\<close> one that does not decode.
\<close>

definition merge_world :: "memoryDriver world" where
  "merge_world = test_world [test_id \<mapsto> ''session:seed;k1;''] False"

definition failing_world :: "memoryDriver world" where
  "failing_world = test_world [test_id \<mapsto> ''session:seed;k1;''] True"

definition flash_world :: "memoryDriver world" where
  "flash_world = test_world [test_id \<mapsto> ''session:x;_flash.new;''] False"

definition flash_failing_world :: "memoryDriver world" where
  "flash_failing_world = test_world [test_id \<mapsto> ''session:x;_flash.new;''] True"

definition empty_world :: "memoryDriver world" where
  "empty_world = test_world Map.empty False"

definition tampered_world :: "memoryDriver world" where
  "tampered_world = test_world [test_id \<mapsto> ''tampered''] False"

text \<open>A random source that counts up.\<close>

definition count_entropy :: entropy where
  "count_entropy = (\<lambda>i. i)"

text \<open>A session as \<open>BuildSession\<close> and \<open>SetID\<close> leave it, bound to the test manager.\<close>

definition bound_session :: "memoryDriver Session" where
  "bound_session =
     pool_New\<lparr>sess_id := test_id, name := ''session'', codec := Some testCodec,
              driver := Some memDriver, manager := Some 0\<rparr>"

text \<open>A request that loaded \<^verbatim>\<open>{seed: 1}\<close> and put \<^verbatim>\<open>k0\<close>.\<close>

definition writer_session :: "memoryDriver Session" where
  "writer_session = Put ''k0'' (VInt 0) (bound_session\<lparr>attributes := [''seed'' \<mapsto> VInt 1]\<rparr>)"


text \<open>A started session that changed nothing.\<close>

definition idle_session :: "memoryDriver Session" where
  "idle_session = bound_session\<lparr>attributes := [''seed'' \<mapsto> VInt 1], started := True\<rparr>"

text \<open>
  A started session whose load brought in a value flashed by the previous request; the
  handler of this request changed nothing.
\<close>

definition flash_session :: "memoryDriver Session" where
  "flash_session =
     bound_session\<lparr>attributes := [''x'' \<mapsto> VInt 1, ''_flash.new'' \<mapsto> VSeq [AStr ''x'']],
                   started := True\<rparr>"

text \<open>The same request when its handler also put \<^verbatim>\<open>k0\<close>.\<close>

definition flash_writer :: "memoryDriver Session" where
  "flash_writer = Put ''k0'' (VInt 0) flash_session"

text \<open>A session holding one expiring and one fresh flash key.\<close>

definition aging_session :: "memoryDriver Session" where
  "aging_session =
     bound_session\<lparr>attributes :=
       [''k0'' \<mapsto> VInt 0, ''x'' \<mapsto> VInt 1,
        ''_flash.old'' \<mapsto> VSeq [AStr ''k0''], ''_flash.new'' \<mapsto> VSeq [AStr ''x'']]\<rparr>"

text \<open>A session on which \<open>Put\<close> was called before \<open>Start\<close>.\<close>

definition early_put_session :: "memoryDriver Session" where
  "early_put_session = Put ''a'' (VInt 1) bound_session"

text \<open>A handler's calls touching three keys.\<close>

definition demo_ops :: "session_op list" where
  "demo_ops =
     [OpPut ''a'' (VInt 1), OpForget [''a'', ''b''], OpPut ''b'' (VInt 2),
      OpFlash ''c'' (VStr ''hi''), OpPull ''c'' [], OpPut ''a'' (VInt 3)]"

section \<open>Properties\<close>

lemmas test_defs = test_id_def testCodec_def testCodec_Encode_def testCodec_Decode_def probe_keys_def
  test_manager_def test_world_def bound_session_def pool_New_def memDriver_def
  memoryDriver_Read_def memoryDriver_Write_def merge_world_def failing_world_def
  flash_world_def flash_failing_world_def empty_world_def tampered_world_def

lemmas op_defs = Put_def Flush_def flash_seq_def as_seq_def Get_def maps_Get_def no_flash_def
  lock_free_def persisted_state_def spec_merge_def saved_world_def save_events_def

subsection \<open>Session identifiers\<close>

lemma generateSessionID_length: "length (fst (generateSessionID e)) = 32"
  by (simp add: generateSessionID_def)

lemma alphabet_length: "length alphabet = 62"
  by (simp add: alphabet_def)

lemma generateSessionID_alphabet: "set (fst (generateSessionID e)) \<subseteq> set alphabet"
proof -
  have "alphabet ! (e i mod length alphabet) \<in> set alphabet" for i
    by (rule nth_mem) (simp add: alphabet_length)
  then show ?thesis
    by (auto simp: generateSessionID_def)
qed

text \<open>
  C10.  \<open>SetID\<close> stores the given string exactly when it is 32 bytes long, whatever its
  characters; for any other length it stores a freshly generated identifier instead,
  32 symbols of the alphabet, which therefore differs from the rejected string.
\<close>

theorem SetID_accepts_exact_length:
  "(length i = 32 \<longrightarrow> sess_id (fst (SetID i s e)) = i \<and> snd (SetID i s e) = e) \<and>
   (length i \<noteq> 32 \<longrightarrow>
      sess_id (fst (SetID i s e)) = fst (generateSessionID e) \<and>
      length (sess_id (fst (SetID i s e))) = 32 \<and>
      set (sess_id (fst (SetID i s e))) \<subseteq> set alphabet \<and>
      sess_id (fst (SetID i s e)) \<noteq> i) \<and>
   (sess_id (fst (SetID i s e)) = i \<longleftrightarrow> length i = 32)"
  using generateSessionID_length [of e] generateSessionID_alphabet [of e]
  by (auto simp: SetID_def isValidID_def Let_def)

theorem SetID_accepts_exact_length_witness:
  "sess_id (fst (SetID ''abcdefghijklmnopqrstuvwxyz012345'' (pool_New :: unit Session) count_entropy))
     = ''abcdefghijklmnopqrstuvwxyz012345'' \<and>
   sess_id (fst (SetID ''short'' (pool_New :: unit Session) count_entropy))
     = ''0123456789ABCDEFGHIJKLMNOPQRSTUV''"
  using SetID_accepts_exact_length [of "''abcdefghijklmnopqrstuvwxyz012345''" "pool_New :: unit Session" count_entropy]
    SetID_accepts_exact_length [of "''short''" "pool_New :: unit Session" count_entropy]
  by (simp add: generateSessionID_def count_entropy_def alphabet_def upt_rec)

subsection \<open>The request deltas\<close>

lemma maps_Forget_apply: "maps_Forget mp keys k = (if k \<in> set keys then None else mp k)"
  by (induction keys arbitrary: mp) auto

lemma Forget_loop_puts: "puts (Forget_loop keys s) k = (if k \<in> set keys then None else puts s k)"
  by (induction keys arbitrary: s) auto

lemma Forget_loop_forgets:
  "forgets (Forget_loop keys s) k = (if k \<in> set keys then Some True else forgets s k)"
  by (induction keys arbitrary: s) auto

lemma Forget_loop_frame:
  "attributes (Forget_loop keys s) = attributes s"
  "sess_id (Forget_loop keys s) = sess_id s"
  "name (Forget_loop keys s) = name s"
  "codec (Forget_loop keys s) = codec s"
  "driver (Forget_loop keys s) = driver s"
  "manager (Forget_loop keys s) = manager s"
  "started (Forget_loop keys s) = started s"
  "dirty (Forget_loop keys s) = dirty s"
  "flushed (Forget_loop keys s) = flushed s"
  "Session.more (Forget_loop keys s) = Session.more s"
  by (induction keys arbitrary: s) auto

text \<open>\<open>Forget\<close> in closed form: the loops collapse to one update per map.\<close>

lemma Forget_eq:
  "Forget keys s =
     s\<lparr>attributes := (\<lambda>k. if k \<in> set keys then None else attributes s k),
       puts := (\<lambda>k. if k \<in> set keys then None else puts s k),
       forgets := (\<lambda>k. if k \<in> set keys then Some True else forgets s k),
       dirty := True\<rparr>"
  by (rule Session.equality)
     (simp_all add: Forget_def Forget_loop_puts Forget_loop_forgets Forget_loop_frame
        maps_Forget_apply fun_eq_iff)

lemma Put_disjoint: "deltas_disjoint s \<Longrightarrow> deltas_disjoint (Put key v s)"
  by (auto simp: deltas_disjoint_def Put_def)

lemma Forget_disjoint: "deltas_disjoint s \<Longrightarrow> deltas_disjoint (Forget keys s)"
  by (auto simp: deltas_disjoint_def Forget_eq dom_def split: if_splits)

lemma Pull_disjoint: "deltas_disjoint s \<Longrightarrow> deltas_disjoint (snd (Pull key def s))"
  by (auto simp: deltas_disjoint_def Pull_def Let_def)

lemma Flush_disjoint: "deltas_disjoint (Flush s)"
  by (simp add: deltas_disjoint_def Flush_def)

lemma removeFromOldFlashData_disjoint:
  "deltas_disjoint s \<Longrightarrow> removeFromOldFlashData keys s = Inr s' \<Longrightarrow> deltas_disjoint s'"
  by (auto simp: removeFromOldFlashData_def Put_disjoint split: sum.splits)

lemma Flash_disjoint:
  "deltas_disjoint s \<Longrightarrow> Flash key v s = Inr s' \<Longrightarrow> deltas_disjoint s'"
  unfolding Flash_def Let_def
  by (auto split: sum.splits intro: removeFromOldFlashData_disjoint Put_disjoint)

lemma apply_op_disjoint:
  "deltas_disjoint s \<Longrightarrow> apply_op x s = Inr s' \<Longrightarrow> deltas_disjoint s'"
  by (cases x) (auto simp: Put_disjoint Forget_disjoint Pull_disjoint Flush_disjoint
      intro: Flash_disjoint)

lemma run_ops_disjoint:
  "deltas_disjoint s \<Longrightarrow> run_ops xs s = Inr s' \<Longrightarrow> deltas_disjoint s'"
proof (induction xs arbitrary: s)
  case Nil
  then show ?case by simp
next
  case (Cons x xs)
  then show ?case
    by (auto split: sum.splits dest: apply_op_disjoint)
qed

text \<open>A session fresh from the pool, and one that was reset, start with both deltas empty.\<close>

lemma pool_New_disjoint: "deltas_disjoint pool_New"
  by (simp add: deltas_disjoint_def pool_New_def)

lemma reset_disjoint: "deltas_disjoint (reset s)"
  by (simp add: deltas_disjoint_def reset_def)

text \<open>
  C8.  Starting from a session whose \<open>puts\<close> and \<open>forgets\<close> share no key (as a pooled
  session does, both being empty), every sequence of \<open>Put\<close>, \<open>Forget\<close>, \<open>Pull\<close>,
  \<open>Flush\<close> and \<open>Flash\<close> calls that runs to its end leaves them without a common key.
  The later operation clears the opposing delta: after \<open>Put key\<close> the key is in \<open>puts\<close>
  and not in \<open>forgets\<close>; after \<open>Forget\<close> of keys including \<open>key\<close>, or \<open>Pull key\<close>, it
  is in \<open>forgets\<close> and not in \<open>puts\<close>.
\<close>

theorem puts_forgets_never_overlap:
  assumes "dom (puts s) \<inter> dom (forgets s) = {}"
    and "run_ops xs s = Inr s'"
  shows "dom (puts s') \<inter> dom (forgets s') = {} \<and>
         key \<notin> dom (forgets (Put key v s')) \<and>
         key \<in> dom (puts (Put key v s')) \<and>
         (key \<in> set keys \<longrightarrow>
            key \<notin> dom (puts (Forget keys s')) \<and> key \<in> dom (forgets (Forget keys s'))) \<and>
         key \<notin> dom (puts (snd (Pull key def s'))) \<and>
         key \<in> dom (forgets (snd (Pull key def s')))"
proof -
  have "deltas_disjoint s'"
    using assms run_ops_disjoint [of s xs s'] by (simp add: deltas_disjoint_def)
  then show ?thesis
    by (simp add: deltas_disjoint_def Put_def Forget_eq Pull_def Let_def domIff)
qed

lemma demo_run: "\<not> isl (run_ops demo_ops (pool_New :: unit Session))"
  by (simp add: demo_ops_def pool_New_def Put_def Forget_def Pull_def Flash_def maps_Pull_def
      removeFromOldFlashData_def flash_seq_def as_seq_def Get_def maps_Get_def Let_def)

theorem puts_forgets_never_overlap_witness:
  "dom (puts (pool_New :: unit Session)) \<inter> dom (forgets (pool_New :: unit Session)) = {} \<and>
   \<not> isl (run_ops demo_ops (pool_New :: unit Session)) \<and>
   ''a'' \<in> set [''a'', ''b''] \<and>
   dom (puts (projr (run_ops demo_ops (pool_New :: unit Session)))) \<inter>
     dom (forgets (projr (run_ops demo_ops (pool_New :: unit Session)))) = {} \<and>
   ''a'' \<notin> dom (puts (Forget [''a'', ''b''] (projr (run_ops demo_ops (pool_New :: unit Session)))))"
proof -
  have h1: "dom (puts (pool_New :: unit Session)) \<inter> dom (forgets (pool_New :: unit Session)) = {}"
    by (simp add: pool_New_def)
  have h2: "run_ops demo_ops (pool_New :: unit Session) = Inr (projr (run_ops demo_ops pool_New))"
    using demo_run by (cases "run_ops demo_ops (pool_New :: unit Session)") auto
  show ?thesis
    using puts_forgets_never_overlap [OF h1 h2, of "''a''" "VNil" "[''a'', ''b'']" "[]"] h1 demo_run
    by simp
qed

subsection \<open>Flash aging\<close>

lemma ageFlashData_noop: "no_flash s \<Longrightarrow> ageFlashData s = Inr s"
  by (simp add: no_flash_def ageFlashData_def cast_ToStringSlice_def)

lemma ageFlashData_eq:
  assumes "flash_seq s ''_flash.old'' = Inr oldv" and "flash_seq s ''_flash.new'' = Inr newv"
  shows "ageFlashData s =
           Inr (if oldv = [] \<and> newv = [] then s
                else Put ''_flash.new'' (VSeq [])
                       (Put ''_flash.old'' (VSeq newv) (Forget (cast_ToStringSlice oldv) s)))"
proof -
  have "Put ''_flash.new'' (VSeq []) (Put ''_flash.old'' (VSeq newv) s) =
        Put ''_flash.new'' (VSeq []) (Put ''_flash.old'' (VSeq newv) (Forget [] s))"
    by (simp add: Put_def Forget_def)
  then show ?thesis
    using assms by (auto simp: ageFlashData_def cast_ToStringSlice_def Let_def)
qed

lemma ageFlashData_cases:
  assumes "ageFlashData s = Inr s1"
  obtains oldv newv where
    "flash_seq s ''_flash.old'' = Inr oldv" and "flash_seq s ''_flash.new'' = Inr newv"
  using assms by (auto simp: ageFlashData_def Let_def split: sum.splits)

lemma ageFlashData_frame:
  assumes "ageFlashData s = Inr s1"
  shows "sess_id s1 = sess_id s" and "name s1 = name s" and "codec s1 = codec s"
    and "driver s1 = driver s" and "manager s1 = manager s" and "flushed s1 = flushed s"
    and "started s1 = started s"
proof -
  obtain oldv newv where
    h: "flash_seq s ''_flash.old'' = Inr oldv" "flash_seq s ''_flash.new'' = Inr newv"
    using assms by (rule ageFlashData_cases)
  have e: "s1 = (if oldv = [] \<and> newv = [] then s
                else Put ''_flash.new'' (VSeq [])
                       (Put ''_flash.old'' (VSeq newv) (Forget (cast_ToStringSlice oldv) s)))"
    using assms ageFlashData_eq [OF h] by simp
  show "sess_id s1 = sess_id s" and "name s1 = name s" and "codec s1 = codec s"
    and "driver s1 = driver s" and "manager s1 = manager s" and "flushed s1 = flushed s"
    and "started s1 = started s"
    by (simp_all add: e Put_def Forget_eq)
qed

lemma ageFlashData_dirty:
  assumes "ageFlashData s = Inr s1"
  shows "dirty s1 \<longleftrightarrow> dirty s \<or> \<not> no_flash s"
proof -
  obtain oldv newv where
    h: "flash_seq s ''_flash.old'' = Inr oldv" "flash_seq s ''_flash.new'' = Inr newv"
    using assms by (rule ageFlashData_cases)
  have e: "s1 = (if oldv = [] \<and> newv = [] then s
                else Put ''_flash.new'' (VSeq [])
                       (Put ''_flash.old'' (VSeq newv) (Forget (cast_ToStringSlice oldv) s)))"
    using assms ageFlashData_eq [OF h] by simp
  show ?thesis
    using h by (auto simp: e no_flash_def Put_def)
qed

lemma ageFlashData_no_flash:
  assumes "ageFlashData s = Inr s1" and "no_flash s"
  shows "s1 = s"
  using assms ageFlashData_noop [of s] by simp

lemma ageFlashData_panics:
  "isl (flash_seq s ''_flash.old'') \<or> isl (flash_seq s ''_flash.new'') \<Longrightarrow>
   ageFlashData s = Inl Panic"
  by (auto simp: ageFlashData_def flash_seq_def as_seq_def Let_def split: sum.splits val.splits)

text \<open>
  C9.  For a session whose two bookkeeping entries, where present, are sequences (the
  type assertion of the code panics on anything else), \<open>ageFlashData\<close> returns.  If both
  sequences are empty the session is returned as it was, \<open>dirty\<close> included.  Otherwise
  every key named in \<^verbatim>\<open>_flash.old\<close> is forgotten (removed from the attributes and from
  \<open>puts\<close>, recorded in \<open>forgets\<close>), then \<^verbatim>\<open>_flash.old\<close> is put to the sequence that
  \<^verbatim>\<open>_flash.new\<close> held, then \<^verbatim>\<open>_flash.new\<close> is put to the empty sequence, and the session
  is dirty.  The key names are \<^verbatim>\<open>cast.ToString\<close> of the entries.
\<close>

theorem ageFlashData_rotates:
  assumes "flash_seq s ''_flash.old'' = Inr oldv" and "flash_seq s ''_flash.new'' = Inr newv"
  shows "\<not> isl (ageFlashData s) \<and>
    (oldv = [] \<and> newv = [] \<longrightarrow> projr (ageFlashData s) = s) \<and>
    (\<not> (oldv = [] \<and> newv = []) \<longrightarrow>
       attributes (projr (ageFlashData s)) =
         (\<lambda>k. if k = ''_flash.new'' then Some (VSeq [])
              else if k = ''_flash.old'' then Some (VSeq newv)
              else if k \<in> set (map cast_ToString oldv) then None
              else attributes s k) \<and>
       puts (projr (ageFlashData s)) =
         (\<lambda>k. if k = ''_flash.new'' then Some (VSeq [])
              else if k = ''_flash.old'' then Some (VSeq newv)
              else if k \<in> set (map cast_ToString oldv) then None
              else puts s k) \<and>
       forgets (projr (ageFlashData s)) =
         (\<lambda>k. if k = ''_flash.new'' \<or> k = ''_flash.old'' then None
              else if k \<in> set (map cast_ToString oldv) then Some True
              else forgets s k) \<and>
       dirty (projr (ageFlashData s)))"
  by (simp add: ageFlashData_eq [OF assms] Put_def Forget_eq cast_ToStringSlice_def fun_eq_iff)

theorem ageFlashData_rotates_witness:
  "flash_seq aging_session ''_flash.old'' = Inr [AStr ''k0''] \<and>
   flash_seq aging_session ''_flash.new'' = Inr [AStr ''x''] \<and>
   \<not> isl (ageFlashData aging_session) \<and>
   attributes (projr (ageFlashData aging_session)) ''k0'' = None \<and>
   attributes (projr (ageFlashData aging_session)) ''x'' = Some (VInt 1) \<and>
   attributes (projr (ageFlashData aging_session)) ''_flash.old'' = Some (VSeq [AStr ''x'']) \<and>
   attributes (projr (ageFlashData aging_session)) ''_flash.new'' = Some (VSeq []) \<and>
   forgets (projr (ageFlashData aging_session)) ''k0'' = Some True \<and>
   dirty (projr (ageFlashData aging_session))"
proof -
  have h1: "flash_seq aging_session ''_flash.old'' = Inr [AStr ''k0'']"
    and h2: "flash_seq aging_session ''_flash.new'' = Inr [AStr ''x'']"
    by (simp_all add: aging_session_def test_defs op_defs)
  show ?thesis
    using ageFlashData_rotates [OF h1 h2] h1 h2
    by (simp add: aging_session_def test_defs)
qed

subsection \<open>Saving\<close>

lemma merge_latest_spec: "merge_latest latest fg pt = spec_merge latest fg pt"
  by (auto simp: merge_latest_def spec_merge_def map_add_def restrict_map_def fun_eq_iff
      split: option.splits)

lemma readFromHandler_persisted:
  assumes "driver s = Some d" and "codec s = Some c"
  shows "\<exists>r. readFromHandler s w = Inr (r, log_event (EvRead (sess_id s)) w) \<and>
             (case r of None \<Rightarrow> Map.empty | Some m \<Rightarrow> m) = persisted_state s (store w)"
  using assms
  by (auto simp: readFromHandler_def persisted_state_def GetID_def GetName_def Let_def
      split: sum.splits)

text \<open>
  The locked part of \<open>Save\<close> for a session bound to a codec and a driver: encode the
  final set, write the blob, and clear \<open>dirty\<close> and \<open>started\<close> only if both succeed.
\<close>

lemma Save_locked_eq:
  assumes "codec s = Some c" and "driver s = Some d"
  shows "Save_locked s w =
     (let w1 = (if flushed s then w else log_event (EvRead (sess_id s)) w) in
      case Encode c (name s) (final_set s (store w)) of
        Inl err \<Rightarrow> Inr (Some err, s, w1)
      | Inr blob \<Rightarrow>
          (let r = Write d (sess_id s) blob (store w);
               w2 = log_event (EvWrite (sess_id s) blob) (w1\<lparr>store := snd r\<rparr>)
           in case fst r of
                Some err \<Rightarrow> Inr (Some err, s, w2)
              | None \<Rightarrow> Inr (None, s\<lparr>dirty := False, started := False\<rparr>, w2)))"
proof (cases "flushed s")
  case True
  then show ?thesis
    using assms
    by (simp add: Save_locked_def final_set_def GetID_def GetName_def Let_def split: sum.splits)
next
  case False
  obtain r where r: "readFromHandler s w = Inr (r, log_event (EvRead (sess_id s)) w)"
    and p: "(case r of None \<Rightarrow> Map.empty | Some m \<Rightarrow> m) = persisted_state s (store w)"
    using readFromHandler_persisted [OF assms(2) assms(1)] by blast
  show ?thesis
    using assms False r p
    by (simp add: Save_locked_def final_set_def merge_latest_spec GetID_def GetName_def Let_def
        log_event_def split: sum.splits)
qed

lemma Save_clean:
  assumes "ageFlashData s = Inr s1" and "\<not> dirty s1"
  shows "Save s w = Inr (None, s1, w)"
  using assms by (simp add: Save_def)

lemma lock_world_free:
  assumes "sessionLocks (mgr w) i \<noteq> Some True"
  shows "lock_world i w =
        Inr (w\<lparr>mgr := (mgr w)\<lparr>sessionLocks := (sessionLocks (mgr w))(i \<mapsto> True)\<rparr>,
               trace := trace w @ [EvLock i]\<rparr>)"
  using assms
  by (auto simp: lock_world_def LockSession_def log_event_def Let_def split: option.splits)

lemma unlock_world_held:
  assumes "sessionLocks (mgr w) i = Some True"
  shows "unlock_world i w =
        Inr (w\<lparr>mgr := (mgr w)\<lparr>sessionLocks := (sessionLocks (mgr w))(i \<mapsto> False)\<rparr>,
               trace := trace w @ [EvUnlock i]\<rparr>)"
  using assms
  by (simp add: unlock_world_def UnlockSession_def log_event_def)

lemma Save_dirty_eq:
  assumes aged: "ageFlashData s = Inr s1" and d: "dirty s1"
    and c: "codec s = Some c" and dr: "driver s = Some d"
    and free: "lock_free s w"
  shows "Save s w =
     (let rd = (if flushed s then [] else [EvRead (sess_id s)]) in
      case Encode c (name s) (final_set s1 (store w)) of
        Inl err \<Rightarrow> Inr (Some err, s1, saved_world s w (store w) rd)
      | Inr blob \<Rightarrow>
          (let r = Write d (sess_id s) blob (store w);
               w' = saved_world s w (snd r) (rd @ [EvWrite (sess_id s) blob])
           in case fst r of
                Some err \<Rightarrow> Inr (Some err, s1, w')
              | None \<Rightarrow> Inr (None, s1\<lparr>dirty := False, started := False\<rparr>, w')))"
proof -
  note fr = ageFlashData_frame [OF aged]
  have c1: "codec s1 = Some c" and d1: "driver s1 = Some d"
    using c dr fr by simp_all
  show ?thesis
  proof (cases "manager s")
    case None
    show ?thesis
    proof (cases "Encode c (name s) (final_set s1 (store w))")
      case (Inl err)
      then show ?thesis
        using aged d fr None
        by (simp add: Save_def Save_locked_eq [OF c1 d1] saved_world_def save_events_def
            log_event_def Let_def)
    next
      case (Inr blob)
      then show ?thesis
        using aged d fr None
        by (cases "fst (Write d (sess_id s) blob (store w))")
           (simp_all add: Save_def Save_locked_eq [OF c1 d1] saved_world_def save_events_def
            log_event_def Let_def)
    qed
  next
    case (Some a)
    then have nl: "sessionLocks (mgr w) (sess_id s) \<noteq> Some True"
      using free by (simp add: lock_free_def)
    note lk = lock_world_free [OF nl]
    show ?thesis
    proof (cases "Encode c (name s) (final_set s1 (store w))")
      case (Inl err)
      then show ?thesis
        using aged d fr Some
        by (simp add: Save_def Save_locked_eq [OF c1 d1] lk GetID_def saved_world_def
            save_events_def unlock_world_held log_event_def Let_def)
    next
      case (Inr blob)
      then show ?thesis
        using aged d fr Some
        by (cases "fst (Write d (sess_id s) blob (store w))")
           (simp_all add: Save_def Save_locked_eq [OF c1 d1] lk GetID_def saved_world_def
            save_events_def unlock_world_held log_event_def Let_def)
    qed
  qed
qed




lemma writer_no_flash: "no_flash writer_session"
  by (simp add: writer_session_def test_defs op_defs)



lemma Flush_flags: "flushed (Flush s) \<and> dirty (Flush s) \<and> no_flash (Flush s)"
  by (simp add: Flush_def no_flash_def flash_seq_def as_seq_def Get_def maps_Get_def)

lemma migrate_flags:
  "migrate destroy s w e = Inr (None, s', w', e') \<Longrightarrow> flushed s' \<and> dirty s'"
  by (auto simp: migrate_def Let_def split: list.splits if_splits option.splits)

lemma Regenerate_flags:
  "Regenerate destroy s w e = Inr (None, s', w', e') \<Longrightarrow> flushed s' \<and> dirty s'"
  by (simp add: Regenerate_def migrate_flags)

lemma Invalidate_flags:
  "Invalidate s w e = Inr (None, s', w', e') \<Longrightarrow>
   flushed s' \<and> dirty s' \<and> attributes s' = Map.empty"
  by (auto simp: Invalidate_def migrate_def Flush_def Let_def split: if_splits option.splits)



text \<open>
  C5 (amended).  For a session with \<open>dirty = False\<close> and no pending flash data (both
  bookkeeping sequences empty or absent), \<open>Save\<close> returns success, logs no lock, read or
  write, and leaves the session and the world exactly as they were.
\<close>

theorem Save_clean_is_noop:
  assumes "\<not> dirty s" and "no_flash s"
  shows "Save s w = Inr (None, s, w)"
  using assms by (simp add: Save_clean ageFlashData_noop)

theorem Save_clean_is_noop_witness:
  "\<not> dirty idle_session \<and> no_flash idle_session \<and>
   Save idle_session merge_world =
     Inr (None, idle_session, merge_world)"
proof -
  have h1: "\<not> dirty idle_session" and h2: "no_flash idle_session"
    by (simp_all add: idle_session_def test_defs op_defs)
  show ?thesis
    using Save_clean_is_noop [OF h1 h2] h1 h2 by simp
qed

lemma flash_session_aged:
  "ageFlashData flash_session =
     Inr (Put ''_flash.new'' (VSeq []) (Put ''_flash.old'' (VSeq [AStr ''x'']) flash_session))"
  by (simp add: ageFlashData_def flash_session_def cast_ToStringSlice_def test_defs op_defs)

text \<open>
  C5 as stated fails: a session that is not dirty but carries a value flashed by the
  previous request is aged by \<open>Save\<close>, which makes it dirty; \<open>Save\<close> then locks, reads
  and writes.
\<close>

theorem Save_clean_counterexample:
  "\<not> dirty flash_session \<and>
   Save flash_session flash_world \<noteq>
     Inr (None, flash_session, flash_world) \<and>
   \<not> isl (Save flash_session flash_world) \<and>
   trace (snd (snd (projr (Save flash_session
            flash_world)))) =
     [EvLock test_id, EvRead test_id, EvWrite test_id ''session:x;_flash.old;_flash.new;'',
      EvUnlock test_id] \<and>
   data (store (snd (snd (projr (Save flash_session
            flash_world))))) test_id =
     Some ''session:x;_flash.old;_flash.new;''"
proof -
  let ?w = "flash_world"
  let ?s1 = "Put ''_flash.new'' (VSeq []) (Put ''_flash.old'' (VSeq [AStr ''x'']) flash_session)"
  have d1: "dirty ?s1" by (simp add: Put_def)
  have c: "codec flash_session = Some testCodec" and d: "driver flash_session = Some memDriver"
    and lf: "lock_free flash_session ?w"
    by (simp_all add: flash_session_def test_defs op_defs)
  have enc: "Encode testCodec (name flash_session) (final_set ?s1 (store ?w)) =
               Inr ''session:x;_flash.old;_flash.new;''"
    by (simp add: final_set_def flash_session_def test_defs op_defs)
  have sv: "Save flash_session ?w =
      Inr (None, ?s1\<lparr>dirty := False, started := False\<rparr>,
           saved_world flash_session ?w
             \<lparr>data = [test_id \<mapsto> ''session:x;_flash.old;_flash.new;''], failWrite = False\<rparr>
             [EvRead test_id, EvWrite test_id ''session:x;_flash.old;_flash.new;''])"
    by (simp add: Save_dirty_eq [OF flash_session_aged d1 c d lf] enc)
       (simp add: flash_session_def test_defs op_defs)
  show ?thesis
    unfolding sv by (simp add: flash_session_def test_defs op_defs)
qed

text \<open>
  C6 (amended).  For a dirty session bound to a codec and a driver, if encoding the final
  set fails, or encoding succeeds and the write fails, \<open>Save\<close> returns that error and the
  session is left dirty.  Its attributes, \<open>puts\<close> and \<open>forgets\<close> are those the flash
  aging step at the start of \<open>Save\<close> produced; they are the ones it had before the call
  when no flash data was pending.
\<close>

theorem Save_failure_keeps_dirty:
  assumes "ageFlashData s = Inr s1"
    and "dirty s"
    and "codec s = Some c" and "driver s = Some d"
    and "lock_free s w"
    and "Encode c (name s) (final_set s1 (store w)) = Inl err \<or>
         (\<exists>blob. Encode c (name s) (final_set s1 (store w)) = Inr blob \<and>
                 fst (Write d (sess_id s) blob (store w)) = Some err)"
  shows "(\<exists>w'. Save s w = Inr (Some err, s1, w')) \<and> dirty s1 \<and> (no_flash s \<longrightarrow> s1 = s)"
proof -
  have d1: "dirty s1"
    using assms(1,2) by (simp add: ageFlashData_dirty)
  have "\<exists>w'. Save s w = Inr (Some err, s1, w')"
    using assms(6)
    by (auto simp: Save_dirty_eq [OF assms(1) d1 assms(3,4,5)] Let_def)
  then show ?thesis
    using d1 assms(1) by (simp add: ageFlashData_no_flash)
qed

theorem Save_failure_keeps_dirty_witness:
  "dirty writer_session \<and> no_flash writer_session \<and>
   lock_free writer_session failing_world \<and>
   (\<exists>w'. Save writer_session failing_world =
           Inr (Some (Error ''write failed''), writer_session, w'))"
proof -
  let ?w = "failing_world"
  have h1: "ageFlashData writer_session = Inr writer_session"
    by (rule ageFlashData_noop [OF writer_no_flash])
  have h2: "dirty writer_session"
    and h3: "codec writer_session = Some testCodec"
    and h4: "driver writer_session = Some memDriver"
    and h5: "lock_free writer_session ?w"
    by (simp_all add: writer_session_def test_defs op_defs)
  have enc: "Encode testCodec (name writer_session) (final_set writer_session (store ?w)) =
               Inr ''session:seed;k0;k1;''"
    by (simp add: final_set_def writer_session_def test_defs op_defs)
  have wr: "fst (Write memDriver (sess_id writer_session) ''session:seed;k0;k1;'' (store ?w)) =
              Some (Error ''write failed'')"
    by (simp add: test_defs)
  have h6: "Encode testCodec (name writer_session) (final_set writer_session (store ?w)) =
              Inl (Error ''write failed'') \<or>
            (\<exists>blob. Encode testCodec (name writer_session) (final_set writer_session (store ?w)) =
                      Inr blob \<and>
                    fst (Write memDriver (sess_id writer_session) blob (store ?w)) =
                      Some (Error ''write failed''))"
    using enc wr by simp
  show ?thesis
    using Save_failure_keeps_dirty [OF h1 h2 h3 h4 h5 h6] h2 h5 writer_no_flash by simp
qed

lemma flash_writer_aged:
  "ageFlashData flash_writer =
     Inr (Put ''_flash.new'' (VSeq []) (Put ''_flash.old'' (VSeq [AStr ''x'']) flash_writer))"
  by (simp add: ageFlashData_def flash_writer_def flash_session_def cast_ToStringSlice_def
      test_defs op_defs)

text \<open>
  C6 as stated fails in its parenthesis: with flash data pending, a \<open>Save\<close> whose write
  fails has already rotated the bookkeeping keys in the attributes and in \<open>puts\<close>.
\<close>

theorem Save_failure_counterexample:
  "dirty flash_writer \<and>
   \<not> isl (Save flash_writer flash_failing_world) \<and>
   fst (projr (Save flash_writer flash_failing_world)) =
     Some (Error ''write failed'') \<and>
   attributes flash_writer ''_flash.old'' = None \<and>
   attributes (fst (snd (projr (Save flash_writer
       flash_failing_world)))) ''_flash.old'' =
     Some (VSeq [AStr ''x'']) \<and>
   puts flash_writer ''_flash.new'' = None \<and>
   puts (fst (snd (projr (Save flash_writer
       flash_failing_world)))) ''_flash.new'' =
     Some (VSeq [])"
proof -
  let ?w = "flash_failing_world"
  let ?s1 = "Put ''_flash.new'' (VSeq []) (Put ''_flash.old'' (VSeq [AStr ''x'']) flash_writer)"
  have d1: "dirty ?s1" by (simp add: Put_def)
  have c: "codec flash_writer = Some testCodec" and d: "driver flash_writer = Some memDriver"
    and lf: "lock_free flash_writer ?w"
    by (simp_all add: flash_writer_def flash_session_def test_defs op_defs)
  have enc: "Encode testCodec (name flash_writer) (final_set ?s1 (store ?w)) =
               Inr ''session:k0;x;_flash.old;_flash.new;''"
    by (simp add: final_set_def flash_writer_def flash_session_def test_defs op_defs)
  have sv: "Save flash_writer ?w =
      Inr (Some (Error ''write failed''), ?s1,
           saved_world flash_writer ?w (store ?w)
             [EvRead (sess_id flash_writer),
              EvWrite (sess_id flash_writer) ''session:k0;x;_flash.old;_flash.new;''])"
    by (simp add: Save_dirty_eq [OF flash_writer_aged d1 c d lf] enc)
       (simp add: flash_writer_def flash_session_def test_defs op_defs)
  show ?thesis
    unfolding sv by (simp add: flash_writer_def flash_session_def test_defs op_defs)
qed

subsection \<open>Loading\<close>

text \<open>
  C7 (amended).  If the driver's read for the session's ID fails, or the read succeeds
  and the codec fails to decode the blob, \<open>Start\<close> returns \<open>True\<close> without error or
  panic, having only marked the session started: nothing is loaded and the attributes
  are the ones the session had before, hence empty for a session fresh from the pool.
\<close>

theorem Start_load_failure_is_silent:
  assumes "driver s = Some d"
    and "isl (Read d (sess_id s) (store w)) \<or>
         (\<exists>v c. Read d (sess_id s) (store w) = Inr v \<and> codec s = Some c \<and>
                isl (Decode c (name s) v))"
  shows "Start s w = Inr (True, s\<lparr>started := True\<rparr>, log_event (EvRead (sess_id s)) w) \<and>
         attributes (s\<lparr>started := True\<rparr>) = attributes s"
  using assms
  by (auto simp: Start_def loadSession_def readFromHandler_def GetID_def GetName_def Let_def
      split: sum.splits)

theorem Start_load_failure_is_silent_witness:
  "driver bound_session = Some memDriver \<and>
   isl (Read memDriver (sess_id bound_session) (store empty_world)) \<and>
   Start bound_session empty_world =
     Inr (True, bound_session\<lparr>started := True\<rparr>,
          log_event (EvRead (sess_id bound_session)) empty_world) \<and>
   attributes bound_session = Map.empty \<and>
   Read memDriver (sess_id bound_session) (store tampered_world) =
     Inr ''tampered'' \<and>
   isl (Decode testCodec (name bound_session) ''tampered'') \<and>
   Start bound_session tampered_world =
     Inr (True, bound_session\<lparr>started := True\<rparr>,
          log_event (EvRead (sess_id bound_session)) tampered_world)"
proof -
  have h1: "driver bound_session = Some memDriver"
    by (simp add: test_defs)
  have r1: "isl (Read memDriver (sess_id bound_session) (store empty_world))"
    by (simp add: test_defs)
  have r2: "Read memDriver (sess_id bound_session)
              (store tampered_world) = Inr ''tampered''"
    and c2: "codec bound_session = Some testCodec"
    and d2: "isl (Decode testCodec (name bound_session) ''tampered'')"
    by (simp_all add: test_defs)
  have h2: "isl (Read memDriver (sess_id bound_session) (store empty_world)) \<or>
         (\<exists>v c. Read memDriver (sess_id bound_session) (store empty_world) = Inr v \<and>
                codec bound_session = Some c \<and> isl (Decode c (name bound_session) v))"
    using r1 by simp
  have h3: "isl (Read memDriver (sess_id bound_session)
                  (store tampered_world)) \<or>
         (\<exists>v c. Read memDriver (sess_id bound_session)
                  (store tampered_world) = Inr v \<and>
                codec bound_session = Some c \<and> isl (Decode c (name bound_session) v))"
    using r2 c2 d2 by simp
  have e: "attributes bound_session = Map.empty"
    by (simp add: test_defs)
  show ?thesis
    using Start_load_failure_is_silent [OF h1 h2] Start_load_failure_is_silent [OF h1 h3]
      h1 r1 r2 d2 e
    by simp
qed

text \<open>
  C7 as stated fails for a session that already holds attributes: after a failed load
  they are still there.
\<close>

theorem Start_load_failure_counterexample:
  "isl (Read memDriver (sess_id early_put_session) (store empty_world)) \<and>
   \<not> isl (Start early_put_session empty_world) \<and>
   attributes (fst (snd (projr (Start early_put_session empty_world)))) ''a'' =
     Some (VInt 1) \<and>
   attributes (fst (snd (projr (Start early_put_session empty_world)))) \<noteq>
     Map.empty"
proof -
  have st: "Start early_put_session empty_world =
      Inr (True, early_put_session\<lparr>started := True\<rparr>,
           log_event (EvRead (sess_id early_put_session)) empty_world)"
    by (simp add: Start_def loadSession_def readFromHandler_def GetID_def early_put_session_def
        Put_def test_defs)
  have a: "attributes early_put_session ''a'' = Some (VInt 1)"
    by (simp add: early_put_session_def Put_def)
  then have ne: "attributes early_put_session \<noteq> Map.empty"
    by (auto simp: fun_eq_iff)
  show ?thesis
    unfolding st using a ne by (simp add: early_put_session_def Put_def test_defs)
qed

subsection \<open>Manager\<close>

lemma reset_eq: "reset s = pool_New\<lparr>Session.more := Session.more s\<rparr>"
  by (rule Session.equality) (simp_all add: reset_def pool_New_def)

lemma reset_pool_New: "reset (s :: 'b Session) = pool_New"
  by (simp add: reset_eq pool_New_def)

lemma ReleaseSession_pool_ok: "pool_ok m \<Longrightarrow> pool_ok (ReleaseSession s m)"
  by (simp add: pool_ok_def ReleaseSession_def reset_pool_New)

lemma AcquireSession_pool_ok:
  assumes "pool_ok m"
  shows "fst (AcquireSession pick m) = pool_New \<and> pool_ok (snd (AcquireSession pick m))"
proof (cases "pick < length (sessionPool m)")
  case True
  then have "sessionPool m ! pick \<in> set (sessionPool m)" by simp
  moreover have "set (take pick (sessionPool m) @ drop (Suc pick) (sessionPool m))
                   \<subseteq> set (sessionPool m)"
    by (auto dest: in_set_takeD in_set_dropD)
  ultimately show ?thesis
    using assms True by (auto simp: AcquireSession_def pool_ok_def)
next
  case False
  then show ?thesis
    using assms by (simp add: AcquireSession_def)
qed

lemma Manager_driver_registered:
  "drivers m n = Some handler \<Longrightarrow> n \<noteq> [] \<Longrightarrow> Manager_driver m (n # rest) = Inr handler"
  by (simp add: Manager_driver_def)

lemma Manager_driver_default:
  "drivers m ''default'' = Some handler \<Longrightarrow> Manager_driver m [] = Inr handler"
  by (simp add: Manager_driver_def)

text \<open>
  C3 (amended).  When the driver name resolves and the pool holds only reset sessions,
  \<open>BuildSession\<close> succeeds and returns a pooled session bound to the resolved driver,
  the manager's codec and the manager, carrying the given name and a freshly generated
  session ID of 32 alphabet symbols; no data is loaded: attributes, \<open>puts\<close> and
  \<open>forgets\<close> are empty and \<open>started\<close>, \<open>dirty\<close> and \<open>flushed\<close> are false.
\<close>

theorem BuildSession_binds:
  assumes "Manager_driver m drv = Inr handler" and "pool_ok m"
  shows "BuildSession a m nm drv pick e =
           Inr (pool_New\<lparr>sess_id := fst (generateSessionID e), name := nm, codec := Codec m,
                         driver := Some handler, manager := Some a\<rparr>,
                snd (AcquireSession pick m), snd (generateSessionID e)) \<and>
         pool_ok (snd (AcquireSession pick m)) \<and>
         length (fst (generateSessionID e)) = 32 \<and>
         set (fst (generateSessionID e)) \<subseteq> set alphabet"
  using assms AcquireSession_pool_ok [OF assms(2), of pick]
    generateSessionID_length [of e] generateSessionID_alphabet [of e]
  by (simp add: BuildSession_def Let_def split_beta)

theorem BuildSession_binds_witness:
  "Manager_driver test_manager [''mock''] = Inr memDriver \<and> pool_ok test_manager \<and>
   BuildSession 0 test_manager ''session'' [''mock''] 0 count_entropy =
     Inr (pool_New\<lparr>sess_id := ''0123456789ABCDEFGHIJKLMNOPQRSTUV'', name := ''session'',
                   codec := Some testCodec, driver := Some memDriver, manager := Some 0\<rparr>,
          test_manager, snd (generateSessionID count_entropy))"
proof -
  have h1: "Manager_driver test_manager [''mock''] = Inr memDriver"
    by (simp add: Manager_driver_def test_manager_def)
  have h2: "pool_ok test_manager"
    by (simp add: pool_ok_def test_manager_def)
  have g: "fst (generateSessionID count_entropy) = ''0123456789ABCDEFGHIJKLMNOPQRSTUV''"
    by (simp add: generateSessionID_def count_entropy_def alphabet_def upt_rec)
  show ?thesis
    using BuildSession_binds [OF h1 h2, of 0 "''session''" 0 count_entropy] h1 h2
    by (simp add: g AcquireSession_def test_manager_def)
qed

text \<open>
  C3 as stated fails: the session \<open>BuildSession\<close> returns has an ID assigned.
\<close>

theorem BuildSession_counterexample:
  "\<not> isl (BuildSession 0 test_manager ''session'' [''mock''] 0 count_entropy) \<and>
   sess_id (fst (projr (BuildSession 0 test_manager ''session'' [''mock''] 0 count_entropy))) =
     ''0123456789ABCDEFGHIJKLMNOPQRSTUV'' \<and>
   sess_id (fst (projr (BuildSession 0 test_manager ''session'' [''mock''] 0 count_entropy))) \<noteq> []"
  by (simp add: BuildSession_def Manager_driver_def AcquireSession_def test_manager_def
      generateSessionID_def count_entropy_def alphabet_def upt_rec Let_def)

lemma LockSession_dom:
  "LockSession i m = Inr m' \<Longrightarrow> dom (sessionLocks m') = insert i (dom (sessionLocks m))"
  by (auto simp: LockSession_def Let_def split: option.splits if_splits)

lemma UnlockSession_dom:
  "UnlockSession i m = Inr m' \<Longrightarrow> dom (sessionLocks m') = dom (sessionLocks m)"
  by (auto simp: UnlockSession_def split: option.splits if_splits)

lemma run_locks_dom:
  "run_locks cs m = Inr m' \<Longrightarrow>
   dom (sessionLocks m') = dom (sessionLocks m) \<union> {i. CallLock i \<in> set cs}"
proof (induction cs m rule: run_locks.induct)
  case (1 m)
  then show ?case by simp
next
  case (2 i cs m)
  then show ?case
    by (auto split: sum.splits dest!: LockSession_dom)
next
  case (3 i cs m)
  then show ?case
    by (auto split: sum.splits dest!: UnlockSession_dom)
qed

text \<open>
  C2 fails on the code.  On a manager with an empty registry, lock and unlock one ID; or,
  as in \<^verbatim>\<open>TestManagerSessionLocksAreCleanedUp\<close>, let one caller lock the ID, a second
  wait, the first unlock, the second lock and unlock.  Every lock is released, and the
  registry still holds the ID's mutex: its entry count is one, not zero.
\<close>

theorem lock_registry_keeps_entries:
  "run_locks [CallLock test_id, CallUnlock test_id] test_manager =
     Inr (test_manager\<lparr>sessionLocks := [test_id \<mapsto> False]\<rparr>) \<and>
   run_locks [CallLock test_id, CallUnlock test_id, CallLock test_id, CallUnlock test_id]
     test_manager =
     Inr (test_manager\<lparr>sessionLocks := [test_id \<mapsto> False]\<rparr>) \<and>
   sessionLocks test_manager = Map.empty \<and>
   dom (sessionLocks (test_manager\<lparr>sessionLocks := [test_id \<mapsto> False]\<rparr>)) = {test_id} \<and>
   card (dom (sessionLocks (test_manager\<lparr>sessionLocks := [test_id \<mapsto> False]\<rparr>))) = 1"
  by (simp add: LockSession_def UnlockSession_def test_manager_def Let_def)

end
